theory Spec2Isabelle
  imports Main "HOL-Library.Word"
begin

section \<open>Data model of the OtaUpdateFHE contract\<close>

text \<open>
  The contract \<^verbatim>\<open>src/contracts/otaUpdateFHE.sol\<close> is embedded function by function.
  A \<^verbatim>\<open>uint256\<close> is a 256-bit word, an \<^verbatim>\<open>address\<close> a 160-bit word, a Solidity
  \<^verbatim>\<open>mapping\<close> a total function (every key reads as the zero value until written).
  A call either reverts (\<open>Inl\<close> of the error, the storage stays as it was) or returns
  the updated storage (\<open>Inr\<close>). The events a call emits are appended to a log kept
  beside the storage, so that a reverted call emits nothing.
\<close>

type_synonym u256 = "256 word"
type_synonym address = "160 word"
type_synonym bytes32 = "256 word"
type_synonym bytes = "8 word list"

text \<open>The struct \<^verbatim>\<open>Batch\<close>; its field \<^verbatim>\<open>id\<close> is \<open>batch_id\<close> here (\<open>id\<close> is the
  identity function of HOL).\<close>

record Batch =
  batch_id :: u256
  isOpen :: bool
  updatePackageIdEncrypted :: u256
  vehicleIdEncrypted :: u256
  timestamp :: u256

record DecryptionContext =
  batchId :: u256
  stateHash :: bytes32
  processed :: bool

datatype event =
    OwnershipTransferred address address
  | ProviderAdded address
  | ProviderRemoved address
  | Paused address
  | Unpaused address
  | CooldownSecondsSet u256 u256
  | BatchOpened u256 u256
  | BatchClosed u256 u256
  | UpdateSubmitted u256 address u256 u256 u256
  | DecryptionRequested u256 u256 bytes32
  | DecryptionCompleted u256 u256 u256 u256 u256

text \<open>The custom errors of the contract, the string of the one \<^verbatim>\<open>require\<close>, the
  panic of checked arithmetic (Solidity 0.8: \<^verbatim>\<open>Panic(0x11)\<close>) and the revert without
  data of an out-of-range byte slice.\<close>

datatype error =
    NotOwner
  | NotProvider
  | PausedState
  | CooldownActive
  | BatchClosedOrInvalid
  | InvalidBatchId
  | ReplayAttempt
  | StateMismatch
  | DecryptionFailed
  | NotInitialized
  | InvalidParameter
  | RequireFailed string
  | PanicOverflow
  | RevertNoData

record contract =
  owner :: address
  isProvider :: "address \<Rightarrow> bool"
  paused :: bool
  cooldownSeconds :: u256
  lastSubmissionTime :: "address \<Rightarrow> u256"
  lastDecryptionRequestTime :: "address \<Rightarrow> u256"
  batches :: "u256 \<Rightarrow> Batch"
  currentBatchId :: u256
  totalBatches :: u256
  decryptionContexts :: "u256 \<Rightarrow> DecryptionContext"
  events :: "event list"

text \<open>What a call sees of its transaction: \<^verbatim>\<open>msg.sender\<close> and \<^verbatim>\<open>block.timestamp\<close>.\<close>

record tx =
  msg_sender :: address
  block_timestamp :: u256

text \<open>
  The parts of the deployment that are not in the repository: the contract's own address,
  \<^verbatim>\<open>keccak256\<close> (over the 32-byte words of an ABI encoding), and the two functions of the
  imported FHE library that the contract branches on.
\<close>

record env =
  this_address :: address
  keccak256 :: "u256 list \<Rightarrow> bytes32"
  isInitialized :: "u256 \<Rightarrow> bool"
  checkSignatures :: "u256 \<Rightarrow> bytes \<Rightarrow> bytes \<Rightarrow> bool"

section \<open>Arithmetic, encoding and modifiers\<close>

text \<open>Checked addition of Solidity 0.8: an overflow reverts.\<close>

definition checked_add :: "u256 \<Rightarrow> u256 \<Rightarrow> error + u256" where
  "checked_add a b = (if unat a + unat b < 2 ^ 256 then Inr (a + b) else Inl PanicOverflow)"

text \<open>\<^verbatim>\<open>abi.encode(cts, address(this))\<close> as 32-byte words: the offset of the dynamic
  array, the address, the array's length, its elements.\<close>

definition abi_encode :: "bytes32 list \<Rightarrow> address \<Rightarrow> u256 list" where
  "abi_encode cts a = [64, ucast a, of_nat (length cts)] @ cts"

definition hashCiphertexts :: "env \<Rightarrow> bytes32 list \<Rightarrow> bytes32" where
  "hashCiphertexts e cts = keccak256 e (abi_encode cts (this_address e))"

text \<open>\<^verbatim>\<open>abi.decode(cleartexts[a:b], (uint256))\<close> for a slice of 32 bytes: big endian; a
  slice that ends beyond the payload reverts.\<close>

definition be_uint256 :: "bytes \<Rightarrow> u256" where
  "be_uint256 bs = foldl (\<lambda>acc b. acc * 256 + ucast b) 0 bs"

definition decode_slice :: "bytes \<Rightarrow> nat \<Rightarrow> nat \<Rightarrow> error + u256" where
  "decode_slice cleartexts a b =
     (if b \<le> length cleartexts then Inr (be_uint256 (take (b - a) (drop a cleartexts)))
      else Inl RevertNoData)"

text \<open>The modifier \<^verbatim>\<open>respectCooldown(_address, _lastTime)\<close>.\<close>

definition respectCooldown :: "contract \<Rightarrow> tx \<Rightarrow> address \<Rightarrow> (address \<Rightarrow> u256) \<Rightarrow> error + unit" where
  "respectCooldown s t a lastTime =
     (case checked_add (lastTime a) (cooldownSeconds s) of
        Inl e \<Rightarrow> Inl e
      | Inr limit \<Rightarrow> if block_timestamp t < limit then Inl CooldownActive else Inr ())"

section \<open>The constructor and the external functions\<close>

definition emit :: "event \<Rightarrow> contract \<Rightarrow> contract" where
  "emit ev s = s\<lparr>events := events s @ [ev]\<rparr>"

definition zero_batch :: Batch where
  "zero_batch = \<lparr>batch_id = 0, isOpen = False, updatePackageIdEncrypted = 0,
     vehicleIdEncrypted = 0, timestamp = 0\<rparr>"

definition zero_context :: DecryptionContext where
  "zero_context = \<lparr>batchId = 0, stateHash = 0, processed = False\<rparr>"

definition constructor :: "address \<Rightarrow> contract" where
  "constructor deployer =
     \<lparr>owner = deployer,
      isProvider = (\<lambda>_. False)(deployer := True),
      paused = False,
      cooldownSeconds = 60,
      lastSubmissionTime = (\<lambda>_. 0),
      lastDecryptionRequestTime = (\<lambda>_. 0),
      batches = (\<lambda>_. zero_batch),
      currentBatchId = 1,
      totalBatches = 0,
      decryptionContexts = (\<lambda>_. zero_context),
      events = [ProviderAdded deployer]\<rparr>"

definition transferOwnership :: "tx \<Rightarrow> address \<Rightarrow> contract \<Rightarrow> error + contract" where
  "transferOwnership t newOwner s =
     (if msg_sender t \<noteq> owner s then Inl NotOwner
      else if newOwner = 0 then Inl (RequireFailed ''New owner is zero address'')
      else Inr ((emit (OwnershipTransferred (owner s) newOwner) s)\<lparr>owner := newOwner\<rparr>))"

definition addProvider :: "tx \<Rightarrow> address \<Rightarrow> contract \<Rightarrow> error + contract" where
  "addProvider t provider s =
     (if msg_sender t \<noteq> owner s then Inl NotOwner
      else if provider = 0 then Inl InvalidParameter
      else if \<not> isProvider s provider
        then Inr (emit (ProviderAdded provider) (s\<lparr>isProvider := (isProvider s)(provider := True)\<rparr>))
      else Inr s)"

definition removeProvider :: "tx \<Rightarrow> address \<Rightarrow> contract \<Rightarrow> error + contract" where
  "removeProvider t provider s =
     (if msg_sender t \<noteq> owner s then Inl NotOwner
      else if isProvider s provider
        then Inr (emit (ProviderRemoved provider) (s\<lparr>isProvider := (isProvider s)(provider := False)\<rparr>))
      else Inr s)"

definition pause :: "tx \<Rightarrow> contract \<Rightarrow> error + contract" where
  "pause t s =
     (if msg_sender t \<noteq> owner s then Inl NotOwner
      else if paused s then Inl PausedState
      else Inr (emit (Paused (msg_sender t)) (s\<lparr>paused := True\<rparr>)))"

definition unpause :: "tx \<Rightarrow> contract \<Rightarrow> error + contract" where
  "unpause t s =
     (if msg_sender t \<noteq> owner s then Inl NotOwner
      else if \<not> paused s then Inl PausedState
      else Inr (emit (Unpaused (msg_sender t)) (s\<lparr>paused := False\<rparr>)))"

definition setCooldownSeconds :: "tx \<Rightarrow> u256 \<Rightarrow> contract \<Rightarrow> error + contract" where
  "setCooldownSeconds t newCooldownSeconds s =
     (if msg_sender t \<noteq> owner s then Inl NotOwner
      else Inr ((emit (CooldownSecondsSet (cooldownSeconds s) newCooldownSeconds) s)
                  \<lparr>cooldownSeconds := newCooldownSeconds\<rparr>))"

definition openBatch :: "tx \<Rightarrow> contract \<Rightarrow> error + contract" where
  "openBatch t s =
     (if \<not> isProvider s (msg_sender t) then Inl NotProvider
      else if paused s then Inl PausedState
      else case respectCooldown s t (msg_sender t) (lastSubmissionTime s) of
        Inl e \<Rightarrow> Inl e
      | Inr _ \<Rightarrow>
          if isOpen (batches s (currentBatchId s)) then Inl BatchClosedOrInvalid
          else (case checked_add (totalBatches s) 1 of
            Inl e \<Rightarrow> Inl e
          | Inr n \<Rightarrow>
              Inr (emit (BatchOpened (currentBatchId s) (block_timestamp t))
                (s\<lparr>batches := (batches s)(currentBatchId s :=
                      \<lparr>batch_id = currentBatchId s, isOpen = True, updatePackageIdEncrypted = 0,
                       vehicleIdEncrypted = 0, timestamp = block_timestamp t\<rparr>),
                   totalBatches := n,
                   lastSubmissionTime := (lastSubmissionTime s)(msg_sender t := block_timestamp t)\<rparr>))))"

definition closeBatch :: "tx \<Rightarrow> u256 \<Rightarrow> contract \<Rightarrow> error + contract" where
  "closeBatch t bId s =
     (if \<not> isProvider s (msg_sender t) then Inl NotProvider
      else if paused s then Inl PausedState
      else if bId \<noteq> currentBatchId s then Inl InvalidBatchId
      else if \<not> isOpen (batches s bId) then Inl BatchClosedOrInvalid
      else case checked_add (currentBatchId s) 1 of
        Inl e \<Rightarrow> Inl e
      | Inr n \<Rightarrow>
          Inr ((emit (BatchClosed bId (block_timestamp t))
            (s\<lparr>batches := (batches s)(bId :=
                  (batches s bId)\<lparr>isOpen := False, timestamp := block_timestamp t\<rparr>)\<rparr>))
            \<lparr>currentBatchId := n\<rparr>))"

definition submitUpdate :: "env \<Rightarrow> tx \<Rightarrow> u256 \<Rightarrow> u256 \<Rightarrow> u256 \<Rightarrow> contract \<Rightarrow> error + contract" where
  "submitUpdate e t bId encryptedUpdatePackageId encryptedVehicleId s =
     (if \<not> isProvider s (msg_sender t) then Inl NotProvider
      else if paused s then Inl PausedState
      else case respectCooldown s t (msg_sender t) (lastSubmissionTime s) of
        Inl err \<Rightarrow> Inl err
      | Inr _ \<Rightarrow>
          if bId \<noteq> currentBatchId s then Inl InvalidBatchId
          else if \<not> isOpen (batches s bId) then Inl BatchClosedOrInvalid
          else if \<not> isInitialized e encryptedUpdatePackageId then Inl NotInitialized
          else if \<not> isInitialized e encryptedVehicleId then Inl NotInitialized
          else
            Inr (emit (UpdateSubmitted bId (msg_sender t) encryptedUpdatePackageId
                         encryptedVehicleId (block_timestamp t))
              (s\<lparr>batches := (batches s)(bId :=
                    (batches s bId)\<lparr>updatePackageIdEncrypted := encryptedUpdatePackageId,
                       vehicleIdEncrypted := encryptedVehicleId,
                       timestamp := block_timestamp t\<rparr>),
                 lastSubmissionTime := (lastSubmissionTime s)(msg_sender t := block_timestamp t)\<rparr>)))"

text \<open>\<^verbatim>\<open>requestBatchDecryption\<close>: the identifier that \<^verbatim>\<open>FHE.requestDecryption\<close> returns is
  chosen by the oracle, outside the contract; it is the argument \<open>requestId\<close>.\<close>

definition requestBatchDecryption :: "env \<Rightarrow> tx \<Rightarrow> u256 \<Rightarrow> u256 \<Rightarrow> contract \<Rightarrow> error + contract" where
  "requestBatchDecryption e t bId requestId s =
     (if \<not> isProvider s (msg_sender t) then Inl NotProvider
      else if paused s then Inl PausedState
      else case respectCooldown s t (msg_sender t) (lastDecryptionRequestTime s) of
        Inl err \<Rightarrow> Inl err
      | Inr _ \<Rightarrow>
          if bId \<ge> currentBatchId s \<or> \<not> isOpen (batches s bId) then Inl InvalidBatchId
          else if \<not> isInitialized e (updatePackageIdEncrypted (batches s bId)) then Inl NotInitialized
          else if \<not> isInitialized e (vehicleIdEncrypted (batches s bId)) then Inl NotInitialized
          else
            let cts = [updatePackageIdEncrypted (batches s bId), vehicleIdEncrypted (batches s bId)];
                h = hashCiphertexts e cts
            in Inr (emit (DecryptionRequested requestId bId h)
                 (s\<lparr>decryptionContexts := (decryptionContexts s)(requestId :=
                       \<lparr>batchId = bId, stateHash = h, processed = False\<rparr>),
                    lastDecryptionRequestTime :=
                      (lastDecryptionRequestTime s)(msg_sender t := block_timestamp t)\<rparr>)))"

definition myCallback :: "env \<Rightarrow> tx \<Rightarrow> u256 \<Rightarrow> bytes \<Rightarrow> bytes \<Rightarrow> contract \<Rightarrow> error + contract" where
  "myCallback e t requestId cleartexts prf s =
     (if processed (decryptionContexts s requestId) then Inl ReplayAttempt
      else
        let bId = batchId (decryptionContexts s requestId);
            cts = [updatePackageIdEncrypted (batches s bId), vehicleIdEncrypted (batches s bId)];
            currentHash = hashCiphertexts e cts
        in if currentHash \<noteq> stateHash (decryptionContexts s requestId) then Inl StateMismatch
           else if \<not> checkSignatures e requestId cleartexts prf then Inl DecryptionFailed
           else case decode_slice cleartexts 0 32 of
             Inl err \<Rightarrow> Inl err
           | Inr updatePackageId \<Rightarrow>
               (case decode_slice cleartexts 32 64 of
                  Inl err \<Rightarrow> Inl err
                | Inr vehicleId \<Rightarrow>
                    Inr (emit (DecryptionCompleted requestId bId updatePackageId vehicleId
                                 (block_timestamp t))
                      (s\<lparr>decryptionContexts := (decryptionContexts s)(requestId :=
                            (decryptionContexts s requestId)\<lparr>processed := True\<rparr>)\<rparr>))))"

section \<open>Transactions and executions\<close>

datatype call =
    TransferOwnership address
  | AddProvider address
  | RemoveProvider address
  | Pause
  | Unpause
  | SetCooldownSeconds u256
  | OpenBatch
  | CloseBatch u256
  | SubmitUpdate u256 u256 u256
  | RequestBatchDecryption u256 u256
  | MyCallback u256 bytes bytes

fun dispatch :: "env \<Rightarrow> tx \<Rightarrow> call \<Rightarrow> contract \<Rightarrow> error + contract" where
  "dispatch e t (TransferOwnership a) s = transferOwnership t a s"
| "dispatch e t (AddProvider a) s = addProvider t a s"
| "dispatch e t (RemoveProvider a) s = removeProvider t a s"
| "dispatch e t Pause s = pause t s"
| "dispatch e t Unpause s = unpause t s"
| "dispatch e t (SetCooldownSeconds n) s = setCooldownSeconds t n s"
| "dispatch e t OpenBatch s = openBatch t s"
| "dispatch e t (CloseBatch b) s = closeBatch t b s"
| "dispatch e t (SubmitUpdate b h1 h2) s = submitUpdate e t b h1 h2 s"
| "dispatch e t (RequestBatchDecryption b r) s = requestBatchDecryption e t b r s"
| "dispatch e t (MyCallback r c p) s = myCallback e t r c p s"

text \<open>A transaction that reverts leaves the storage and the log as they were.\<close>

definition commit :: "error + contract \<Rightarrow> contract \<Rightarrow> contract" where
  "commit r s = (case r of Inl _ \<Rightarrow> s | Inr s' \<Rightarrow> s')"

definition step :: "env \<Rightarrow> contract \<Rightarrow> tx \<times> call \<Rightarrow> contract" where
  "step e s x = commit (dispatch e (fst x) (snd x) s) s"

definition run :: "env \<Rightarrow> contract \<Rightarrow> (tx \<times> call) list \<Rightarrow> contract" where
  "run e s xs = foldl (step e) s xs"

section \<open>The ledger invariant and observers of an execution\<close>

definition single_open :: "contract \<Rightarrow> bool" where
  "single_open s \<longleftrightarrow> (\<forall>b. isOpen (batches s b) \<longrightarrow> b = currentBatchId s)"

definition fresh_above :: "contract \<Rightarrow> bool" where
  "fresh_above s \<longleftrightarrow>
     batches s 0 = zero_batch \<and> (\<forall>b. currentBatchId s < b \<longrightarrow> batches s b = zero_batch)"

definition counters_ok :: "contract \<Rightarrow> bool" where
  "counters_ok s \<longleftrightarrow> currentBatchId s \<noteq> 0 \<and>
     unat (totalBatches s) =
       (if isOpen (batches s (currentBatchId s)) then unat (currentBatchId s)
        else unat (currentBatchId s) - 1)"

definition ledger_inv :: "contract \<Rightarrow> bool" where
  "ledger_inv s \<longleftrightarrow> single_open s \<and> fresh_above s \<and> counters_ok s"

fun ledger_call :: "call \<Rightarrow> bool" where
  "ledger_call OpenBatch = True"
| "ledger_call (CloseBatch _) = True"
| "ledger_call (SubmitUpdate _ _ _) = True"
| "ledger_call _ = False"

text \<open>Observers of an execution: whether a call returned, how many calls of a kind
  returned along an execution, and how many completion events the log holds for a request.\<close>

definition succeeds :: "error + contract \<Rightarrow> bool" where
  "succeeds r = (case r of Inl _ \<Rightarrow> False | Inr _ \<Rightarrow> True)"

fun successes :: "(call \<Rightarrow> bool) \<Rightarrow> env \<Rightarrow> contract \<Rightarrow> (tx \<times> call) list \<Rightarrow> nat" where
  "successes P e s [] = 0"
| "successes P e s (x # xs) =
     (if P (snd x) \<and> succeeds (dispatch e (fst x) (snd x) s) then 1 else 0)
       + successes P e (step e s x) xs"

fun is_openBatch :: "call \<Rightarrow> bool" where
  "is_openBatch OpenBatch = True"
| "is_openBatch _ = False"

fun is_closeBatch :: "call \<Rightarrow> bool" where
  "is_closeBatch (CloseBatch _) = True"
| "is_closeBatch _ = False"

fun is_completion :: "u256 \<Rightarrow> event \<Rightarrow> bool" where
  "is_completion r (DecryptionCompleted r' _ _ _ _) = (r' = r)"
| "is_completion r _ = False"

definition completions :: "u256 \<Rightarrow> contract \<Rightarrow> nat" where
  "completions r s = length (filter (is_completion r) (events s))"

text \<open>The log holds one completion event for each completed request and none for the
  others.\<close>

definition replay_inv :: "contract \<Rightarrow> bool" where
  "replay_inv s \<longleftrightarrow>
     (\<forall>r. completions r s = (if processed (decryptionContexts s r) then 1 else 0))"


section \<open>A concrete deployment for the examples\<close>

text \<open>The examples run the contract in an environment where every handle but zero is
  initialized (as the FHE library has it), every proof verifies, and a small polynomial
  digest stands in for \<^verbatim>\<open>keccak256\<close>. The theorems hold for every environment.\<close>

definition demo_env :: env where
  "demo_env = \<lparr>this_address = 4096,
     keccak256 = (\<lambda>ws. foldl (\<lambda>acc w. 31 * acc + w) 1 ws),
     isInitialized = (\<lambda>h. h \<noteq> 0),
     checkSignatures = (\<lambda>_ _ _. True)\<rparr>"

definition tx_at :: "address \<Rightarrow> u256 \<Rightarrow> tx" where
  "tx_at a n = \<lparr>msg_sender = a, block_timestamp = n\<rparr>"

text \<open>\<^verbatim>\<open>type(uint256).max\<close>, the largest cooldown the owner can set.\<close>

definition max_uint256 :: u256 where
  "max_uint256 = 115792089237316195423570985008687907853269984665640564039457584007913129639935"

text \<open>The storage after the deployer opened batch 1, submitted the pair (11, 22) and closed
  the batch, and the same storage holding a request for batch 1 under the identifier 7.\<close>

definition closed_batch_state :: contract where
  "closed_batch_state = run demo_env (constructor 1)
     [(tx_at 1 100, OpenBatch), (tx_at 1 160, SubmitUpdate 1 11 22), (tx_at 1 170, CloseBatch 1)]"

definition with_request :: "DecryptionContext \<Rightarrow> contract" where
  "with_request c = closed_batch_state
     \<lparr>decryptionContexts := (decryptionContexts closed_batch_state)(7 := c)\<rparr>"

section \<open>Effects of the successful calls\<close>

lemma checked_add_Inr:
  "checked_add a b = Inr n \<Longrightarrow> n = a + b \<and> unat n = unat a + unat b"
  by (auto simp: checked_add_def unat_word_ariths split: if_splits)

lemma checked_add_Inl:
  "checked_add a b = Inl err \<Longrightarrow> err = PanicOverflow \<and> 2 ^ 256 \<le> unat a + unat b"
  by (auto simp: checked_add_def split: if_splits)

lemma respectCooldown_cases:
  "respectCooldown s t a lastTime =
     (if 2 ^ 256 \<le> unat (lastTime a) + unat (cooldownSeconds s) then Inl PanicOverflow
      else if unat (block_timestamp t) < unat (lastTime a) + unat (cooldownSeconds s)
        then Inl CooldownActive
      else Inr ())"
  by (simp add: respectCooldown_def checked_add_def word_less_nat_alt unat_word_ariths)

lemma openBatch_Inr:
  assumes "openBatch t s = Inr s'"
  shows "isProvider s (msg_sender t)" "\<not> paused s"
    "respectCooldown s t (msg_sender t) (lastSubmissionTime s) = Inr ()"
    "\<not> isOpen (batches s (currentBatchId s))"
    "unat (totalBatches s) + 1 < 2 ^ 256"
    "s' = s\<lparr>batches := (batches s)(currentBatchId s :=
                      \<lparr>batch_id = currentBatchId s, isOpen = True, updatePackageIdEncrypted = 0,
                       vehicleIdEncrypted = 0, timestamp = block_timestamp t\<rparr>),
                   totalBatches := totalBatches s + 1,
                   lastSubmissionTime := (lastSubmissionTime s)(msg_sender t := block_timestamp t),
                   events := events s @ [BatchOpened (currentBatchId s) (block_timestamp t)]\<rparr>"
  using assms
  by (auto simp: openBatch_def emit_def checked_add_def split: if_splits sum.splits)

lemma closeBatch_Inr:
  assumes "closeBatch t b s = Inr s'"
  shows "isProvider s (msg_sender t)" "\<not> paused s" "b = currentBatchId s"
    "isOpen (batches s (currentBatchId s))"
    "unat (currentBatchId s) + 1 < 2 ^ 256"
    "s' = s\<lparr>batches := (batches s)(currentBatchId s :=
                  (batches s (currentBatchId s))\<lparr>isOpen := False, timestamp := block_timestamp t\<rparr>),
            currentBatchId := currentBatchId s + 1,
            events := events s @ [BatchClosed (currentBatchId s) (block_timestamp t)]\<rparr>"
  using assms
  by (auto simp: closeBatch_def emit_def checked_add_def split: if_splits sum.splits)

lemma submitUpdate_Inr:
  assumes "submitUpdate e t b h1 h2 s = Inr s'"
  shows "isProvider s (msg_sender t)" "\<not> paused s"
    "respectCooldown s t (msg_sender t) (lastSubmissionTime s) = Inr ()"
    "b = currentBatchId s" "isOpen (batches s (currentBatchId s))"
    "isInitialized e h1" "isInitialized e h2"
    "s' = s\<lparr>batches := (batches s)(currentBatchId s :=
                  (batches s (currentBatchId s))\<lparr>updatePackageIdEncrypted := h1,
                     vehicleIdEncrypted := h2, timestamp := block_timestamp t\<rparr>),
            lastSubmissionTime := (lastSubmissionTime s)(msg_sender t := block_timestamp t),
            events := events s @ [UpdateSubmitted (currentBatchId s) (msg_sender t) h1 h2
                                    (block_timestamp t)]\<rparr>"
  using assms
  by (auto simp: submitUpdate_def emit_def split: if_splits sum.splits)

lemma requestBatchDecryption_Inr:
  assumes "requestBatchDecryption e t b r s = Inr s'"
  shows "isProvider s (msg_sender t)" "\<not> paused s"
    "respectCooldown s t (msg_sender t) (lastDecryptionRequestTime s) = Inr ()"
    "b < currentBatchId s" "isOpen (batches s b)"
    "s' = s\<lparr>decryptionContexts := (decryptionContexts s)(r :=
                 \<lparr>batchId = b,
                  stateHash = hashCiphertexts e
                    [updatePackageIdEncrypted (batches s b), vehicleIdEncrypted (batches s b)],
                  processed = False\<rparr>),
            lastDecryptionRequestTime :=
              (lastDecryptionRequestTime s)(msg_sender t := block_timestamp t),
            events := events s @ [DecryptionRequested r b (hashCiphertexts e
                    [updatePackageIdEncrypted (batches s b), vehicleIdEncrypted (batches s b)])]\<rparr>"
  using assms
  by (auto simp: requestBatchDecryption_def emit_def Let_def split: if_splits sum.splits)

lemma myCallback_Inr:
  assumes "myCallback e t r c p s = Inr s'"
  shows "\<not> processed (decryptionContexts s r)"
    "\<exists>v1 v2. s' = s\<lparr>decryptionContexts := (decryptionContexts s)(r :=
                 (decryptionContexts s r)\<lparr>processed := True\<rparr>),
            events := events s @ [DecryptionCompleted r (batchId (decryptionContexts s r)) v1 v2
                                    (block_timestamp t)]\<rparr>"
  using assms
  by (auto simp: myCallback_def emit_def Let_def split: if_splits sum.splits)

section \<open>Preservation of the ledger invariant\<close>

lemma word_succ_less: "unat (a::u256) + 1 < 2 ^ 256 \<Longrightarrow> a < a + 1"
  by (simp add: word_less_nat_alt unat_word_ariths)

lemma word_succ_unat: "unat (a::u256) + 1 < 2 ^ 256 \<Longrightarrow> unat (a + 1) = unat a + 1"
  by (simp add: unat_word_ariths)

lemma single_openD: "single_open s \<Longrightarrow> isOpen (batches s b) \<Longrightarrow> b = currentBatchId s"
  unfolding single_open_def by blast

lemma ledger_inv_constructor: "ledger_inv (constructor d)"
  by (simp add: ledger_inv_def single_open_def fresh_above_def counters_ok_def constructor_def
      zero_batch_def)

lemma ledger_frame:
  assumes "dispatch e t c s = Inr s'" "\<not> ledger_call c"
  shows "batches s' = batches s \<and> currentBatchId s' = currentBatchId s \<and>
         totalBatches s' = totalBatches s"
proof (cases c)
  case (RequestBatchDecryption b r)
  with assms(1) show ?thesis
    using requestBatchDecryption_Inr(6)[of e t b r s s'] by simp
next
  case (MyCallback r cl p)
  with assms(1) show ?thesis
    using myCallback_Inr(2)[of e t r cl p s s'] by auto
qed (use assms in \<open>auto simp: transferOwnership_def addProvider_def removeProvider_def pause_def
      unpause_def setCooldownSeconds_def emit_def split: if_splits\<close>)

lemma ledger_inv_frame:
  assumes "ledger_inv s" "batches s' = batches s" "currentBatchId s' = currentBatchId s"
    "totalBatches s' = totalBatches s"
  shows "ledger_inv s'"
  using assms(1)
  unfolding ledger_inv_def single_open_def fresh_above_def counters_ok_def assms(2-4) .

lemma ledger_inv_openBatch:
  assumes "ledger_inv s" "openBatch t s = Inr s'"
  shows "ledger_inv s'"
proof -
  note eff = openBatch_Inr[OF assms(2)]
  have cur: "currentBatchId s \<noteq> 0" and tot: "unat (totalBatches s) = unat (currentBatchId s) - 1"
    using assms(1) eff(4) by (simp_all add: ledger_inv_def counters_ok_def)
  have "0 < unat (currentBatchId s)" using cur by (simp add: unat_gt_0)
  then have "unat (totalBatches s + 1) = unat (currentBatchId s)"
    using tot word_succ_unat[OF eff(5)] by simp
  then have "counters_ok s'" using cur by (simp add: counters_ok_def eff(6))
  moreover have "single_open s'" using assms(1) by (simp add: ledger_inv_def single_open_def eff(6))
  moreover have "fresh_above s'" using assms(1) cur
    by (auto simp: ledger_inv_def fresh_above_def eff(6))
  ultimately show ?thesis by (simp add: ledger_inv_def)
qed

lemma ledger_inv_closeBatch:
  assumes "ledger_inv s" "closeBatch t b s = Inr s'"
  shows "ledger_inv s'"
proof -
  note eff = closeBatch_Inr[OF assms(2)]
  have so: "single_open s" and fa: "fresh_above s" and co: "counters_ok s"
    using assms(1) by (simp_all add: ledger_inv_def)
  have lt: "currentBatchId s < currentBatchId s + 1" by (rule word_succ_less[OF eff(5)])
  then have ne: "currentBatchId s + 1 \<noteq> currentBatchId s" by simp
  have nz: "currentBatchId s + 1 \<noteq> 0"
    using lt by (metis word_not_simps(1))
  have "single_open s'" using so by (auto simp: single_open_def eff(6))
  moreover have "fresh_above s'"
  proof -
    have "batches s' 0 = zero_batch" using fa co by (simp add: fresh_above_def counters_ok_def eff(6))
    moreover have "batches s' b' = zero_batch" if "currentBatchId s' < b'" for b'
    proof -
      from that have "currentBatchId s < b'" using lt by (simp add: eff(6))
      then show ?thesis using fa by (auto simp: fresh_above_def eff(6))
    qed
    ultimately show ?thesis by (simp add: fresh_above_def)
  qed
  moreover have "counters_ok s'"
  proof -
    have "\<not> isOpen (batches s (currentBatchId s + 1))"
      using so ne by (auto simp: single_open_def)
    then show ?thesis
      using co eff(4) ne nz word_succ_unat[OF eff(5)] by (simp add: counters_ok_def eff(6))
  qed
  ultimately show ?thesis by (simp add: ledger_inv_def)
qed

lemma ledger_inv_submitUpdate:
  assumes "ledger_inv s" "submitUpdate e t b h1 h2 s = Inr s'"
  shows "ledger_inv s'"
proof -
  note eff = submitUpdate_Inr[OF assms(2)]
  have so: "single_open s" and fa: "fresh_above s" and co: "counters_ok s"
    using assms(1) by (simp_all add: ledger_inv_def)
  have "single_open s'"
    unfolding single_open_def
  proof (intro allI impI)
    fix b'
    assume "isOpen (batches s' b')"
    then have "isOpen (batches s b')" by (cases "b' = currentBatchId s") (simp_all add: eff(5,8))
    then have "b' = currentBatchId s" by (rule single_openD[OF so])
    then show "b' = currentBatchId s'" by (simp add: eff(8))
  qed
  moreover have "fresh_above s'"
  proof -
    have "batches s' 0 = zero_batch"
      using fa co by (simp add: fresh_above_def counters_ok_def eff(8))
    moreover have "batches s' b' = zero_batch" if "currentBatchId s' < b'" for b'
      using that fa by (auto simp: fresh_above_def eff(8))
    ultimately show ?thesis by (simp add: fresh_above_def)
  qed
  moreover have "counters_ok s'" using co eff(5) by (simp add: counters_ok_def eff(8))
  ultimately show ?thesis by (simp add: ledger_inv_def)
qed

lemma ledger_inv_dispatch:
  assumes "ledger_inv s" "dispatch e t c s = Inr s'"
  shows "ledger_inv s'"
proof (cases "ledger_call c")
  case True
  show ?thesis
  proof (cases c)
    case OpenBatch
    with assms show ?thesis by (simp add: ledger_inv_openBatch)
  next
    case (CloseBatch b)
    with assms show ?thesis using ledger_inv_closeBatch[of s _ b s'] by simp
  next
    case (SubmitUpdate b h1 h2)
    with assms show ?thesis using ledger_inv_submitUpdate[of s e _ b h1 h2 s'] by simp
  qed (use True in simp_all)
next
  case False
  then show ?thesis using ledger_frame[OF assms(2)] ledger_inv_frame[OF assms(1)] by blast
qed

lemma ledger_inv_step: "ledger_inv s \<Longrightarrow> ledger_inv (step e s x)"
  by (auto simp: step_def commit_def split: sum.splits dest: ledger_inv_dispatch)

lemma run_Nil: "run e s [] = s"
  by (simp add: run_def)

lemma run_Cons: "run e s (x # xs) = run e (step e s x) xs"
  by (simp add: run_def)

lemma run_snoc: "run e s (xs @ [x]) = step e (run e s xs) x"
  by (simp add: run_def)

lemma ledger_inv_run: "ledger_inv s \<Longrightarrow> ledger_inv (run e s xs)"
  by (induction xs arbitrary: s) (simp_all add: run_Nil run_Cons ledger_inv_step)

lemma ledger_inv_reachable: "ledger_inv (run e (constructor d) xs)"
  by (simp add: ledger_inv_run ledger_inv_constructor)

text \<open>With the invariant, the test of \<^verbatim>\<open>requestBatchDecryption\<close> can never pass: it asks for a
  batch below the active id that is still open.\<close>

lemma requestBatchDecryption_never_succeeds:
  assumes "ledger_inv s"
  shows "requestBatchDecryption e t b r s \<noteq> Inr s'"
proof
  assume ok: "requestBatchDecryption e t b r s = Inr s'"
  from requestBatchDecryption_Inr(4,5)[OF ok] assms show False
    by (auto simp: ledger_inv_def single_open_def)
qed

section \<open>Counting the batches\<close>

lemma total_step:
  "unat (totalBatches (step e s x)) =
     unat (totalBatches s) +
       (if is_openBatch (snd x) \<and> succeeds (dispatch e (fst x) (snd x) s) then 1 else 0)"
proof (cases "dispatch e (fst x) (snd x) s")
  case (Inl err)
  then show ?thesis by (simp add: step_def commit_def succeeds_def)
next
  case (Inr s')
  then have st: "step e s x = s'" by (simp add: step_def commit_def)
  show ?thesis
  proof (cases "snd x")
    case OpenBatch
    with Inr have ok: "openBatch (fst x) s = Inr s'" by simp
    show ?thesis
      using openBatch_Inr(6)[OF ok] word_succ_unat[OF openBatch_Inr(5)[OF ok]] Inr OpenBatch
      by (simp add: st succeeds_def)
  next
    case (CloseBatch b)
    with Inr have ok: "closeBatch (fst x) b s = Inr s'" by simp
    show ?thesis using closeBatch_Inr(6)[OF ok] CloseBatch by (simp add: st)
  next
    case (SubmitUpdate b h1 h2)
    with Inr have ok: "submitUpdate e (fst x) b h1 h2 s = Inr s'" by simp
    show ?thesis using submitUpdate_Inr(8)[OF ok] SubmitUpdate by (simp add: st)
  qed (use ledger_frame[OF Inr] in \<open>simp_all add: st\<close>)
qed

lemma current_step:
  "unat (currentBatchId (step e s x)) =
     unat (currentBatchId s) +
       (if is_closeBatch (snd x) \<and> succeeds (dispatch e (fst x) (snd x) s) then 1 else 0)"
proof (cases "dispatch e (fst x) (snd x) s")
  case (Inl err)
  then show ?thesis by (simp add: step_def commit_def succeeds_def)
next
  case (Inr s')
  then have st: "step e s x = s'" by (simp add: step_def commit_def)
  show ?thesis
  proof (cases "snd x")
    case OpenBatch
    with Inr have ok: "openBatch (fst x) s = Inr s'" by simp
    show ?thesis using openBatch_Inr(6)[OF ok] OpenBatch by (simp add: st)
  next
    case (CloseBatch b)
    with Inr have ok: "closeBatch (fst x) b s = Inr s'" by simp
    show ?thesis
      using closeBatch_Inr(6)[OF ok] word_succ_unat[OF closeBatch_Inr(5)[OF ok]] Inr CloseBatch
      by (simp add: st succeeds_def)
  next
    case (SubmitUpdate b h1 h2)
    with Inr have ok: "submitUpdate e (fst x) b h1 h2 s = Inr s'" by simp
    show ?thesis using submitUpdate_Inr(8)[OF ok] SubmitUpdate by (simp add: st)
  qed (use ledger_frame[OF Inr] in \<open>simp_all add: st\<close>)
qed

lemma total_run:
  "unat (totalBatches (run e s xs)) = unat (totalBatches s) + successes is_openBatch e s xs"
  by (induction xs arbitrary: s) (simp_all add: run_Nil run_Cons total_step)

lemma current_run:
  "unat (currentBatchId (run e s xs)) = unat (currentBatchId s) + successes is_closeBatch e s xs"
  by (induction xs arbitrary: s) (simp_all add: run_Nil run_Cons current_step)

section \<open>Evaluating the examples\<close>

lemmas demo_defs = run_def step_def commit_def constructor_def openBatch_def submitUpdate_def
  closeBatch_def requestBatchDecryption_def myCallback_def respectCooldown_def checked_add_def
  emit_def tx_at_def demo_env_def zero_batch_def zero_context_def hashCiphertexts_def abi_encode_def
  transferOwnership_def addProvider_def removeProvider_def pause_def unpause_def
  setCooldownSeconds_def decode_slice_def max_uint256_def

section \<open>Requesting the disclosure of a closed batch\<close>

text \<open>
  C1. The claim: for a batch that is closed, with its handles set by an earlier submission,
  \<^verbatim>\<open>requestBatchDecryption\<close> by an authorized provider, while not paused and with the
  cooldown of the disclosure class elapsed, stores a pending request and emits the event.
  The contract's test is \<^verbatim>\<open>batchId >= currentBatchId || !batches[batchId].isOpen\<close>, under
  the comment "Must be a closed batch": it reverts for every batch that is not open. In the
  execution below the deployer opens batch 1, submits the pair (11, 22), closes the batch and
  requests its disclosure; every precondition of the claim holds, and the call reverts with
  \<open>InvalidBatchId\<close>.
\<close>

theorem requestBatchDecryption_closed_batch_reverts:
  "let s = run demo_env (constructor 1)
       [(tx_at 1 100, OpenBatch), (tx_at 1 160, SubmitUpdate 1 11 22), (tx_at 1 170, CloseBatch 1)]
   in currentBatchId s = 2 \<and> \<not> isOpen (batches s 1) \<and>
      updatePackageIdEncrypted (batches s 1) = 11 \<and> vehicleIdEncrypted (batches s 1) = 22 \<and>
      isProvider s 1 \<and> \<not> paused s \<and>
      respectCooldown s (tx_at 1 200) 1 (lastDecryptionRequestTime s) = Inr () \<and>
      requestBatchDecryption demo_env (tx_at 1 200) 1 5 s = Inl InvalidBatchId"
  by (simp add: demo_defs)

text \<open>The same holds in every state an execution reaches: \<open>requestBatchDecryption\<close> never
  returns.\<close>

lemma requestBatchDecryption_unreachable:
  "\<not> succeeds (requestBatchDecryption e t b r (run e (constructor d) xs))"
  using requestBatchDecryption_never_succeeds[OF ledger_inv_reachable, of e t b r e d xs]
  by (cases "requestBatchDecryption e t b r (run e (constructor d) xs)") (auto simp: succeeds_def)

section \<open>The single open batch\<close>

text \<open>
  C4. In every state that an execution reaches from the deployment (by any calls, of any
  callers, \<open>openBatch\<close> and \<open>closeBatch\<close> among them), at most one batch is open, and
  an open batch is the one at \<open>currentBatchId\<close>. A \<open>closeBatch\<close> that returns closes the
  active batch and increments the counter by one, without wrapping around; no batch was ever
  stored at the new id, and the next \<open>openBatch\<close> that returns opens a batch with that id.
\<close>

theorem single_open_batch:
  fixes e :: env and d :: address and xs :: "(tx \<times> call) list"
  defines "s \<equiv> run e (constructor d) xs"
  shows "(\<forall>b b'. isOpen (batches s b) \<longrightarrow> isOpen (batches s b') \<longrightarrow> b = b') \<and>
         (\<forall>b. isOpen (batches s b) \<longrightarrow> b = currentBatchId s) \<and>
         (\<forall>t b s'. closeBatch t b s = Inr s' \<longrightarrow>
            b = currentBatchId s \<and>
            \<not> isOpen (batches s' b) \<and>
            unat (currentBatchId s') = unat (currentBatchId s) + 1 \<and>
            batches s' (currentBatchId s') = zero_batch \<and>
            (\<forall>t' s''. openBatch t' s' = Inr s'' \<longrightarrow>
               isOpen (batches s'' (currentBatchId s')) \<and>
               batch_id (batches s'' (currentBatchId s')) = currentBatchId s + 1))"
proof -
  have inv: "ledger_inv s" unfolding s_def by (rule ledger_inv_reachable)
  then have so: "single_open s" by (simp add: ledger_inv_def)
  have one: "b = currentBatchId s" if "isOpen (batches s b)" for b
    using that by (rule single_openD[OF so])
  have two: "b = b'" if "isOpen (batches s b)" "isOpen (batches s b')" for b b'
    using one[OF that(1)] one[OF that(2)] by simp
  have three: "b = currentBatchId s \<and> \<not> isOpen (batches s' b) \<and>
      unat (currentBatchId s') = unat (currentBatchId s) + 1 \<and>
      batches s' (currentBatchId s') = zero_batch \<and>
      (\<forall>t' s''. openBatch t' s' = Inr s'' \<longrightarrow>
         isOpen (batches s'' (currentBatchId s')) \<and>
         batch_id (batches s'' (currentBatchId s')) = currentBatchId s + 1)"
    if ok: "closeBatch t b s = Inr s'" for t b s'
  proof -
    note eff = closeBatch_Inr[OF ok]
    have inv': "ledger_inv s'" by (rule ledger_inv_closeBatch[OF inv ok])
    have cur': "currentBatchId s' = currentBatchId s + 1" by (simp add: eff(6))
    have "currentBatchId s < currentBatchId s'"
      unfolding cur' by (rule word_succ_less[OF eff(5)])
    then have fresh: "batches s' (currentBatchId s') = zero_batch"
      using inv by (simp add: ledger_inv_def fresh_above_def eff(6))
    have closed: "\<not> isOpen (batches s' b)" by (simp add: eff(3,6))
    have count: "unat (currentBatchId s') = unat (currentBatchId s) + 1"
      unfolding cur' by (rule word_succ_unat[OF eff(5)])
    have "isOpen (batches s'' (currentBatchId s')) \<and>
          batch_id (batches s'' (currentBatchId s')) = currentBatchId s + 1"
      if ok': "openBatch t' s' = Inr s''" for t' s''
      using openBatch_Inr(6)[OF ok'] by (simp add: cur')
    then show ?thesis using eff(3) closed count fresh by blast
  qed
  show ?thesis using one two three by blast
qed

theorem single_open_batch_witness:
  "isOpen (batches (run demo_env (constructor 1) [(tx_at 1 100, OpenBatch)]) 1) \<and>
   currentBatchId (run demo_env (constructor 1) [(tx_at 1 100, OpenBatch)]) = 1 \<and>
   (\<exists>s'. closeBatch (tx_at 1 170) 1 (run demo_env (constructor 1) [(tx_at 1 100, OpenBatch)])
            = Inr s' \<and>
         \<not> isOpen (batches s' 1) \<and> unat (currentBatchId s') = 2 \<and>
         batches s' (currentBatchId s') = zero_batch \<and>
         (\<exists>s''. openBatch (tx_at 1 240) s' = Inr s'' \<and> isOpen (batches s'' (currentBatchId s')) \<and>
            batch_id (batches s'' (currentBatchId s')) = 2))"
proof -
  let ?s = "run demo_env (constructor 1) [(tx_at 1 100, OpenBatch)]"
  note th = single_open_batch[where e = demo_env and d = 1 and xs = "[(tx_at 1 100, OpenBatch)]"]
  have open1: "isOpen (batches ?s 1)" by (simp add: demo_defs)
  with th have cur: "1 = currentBatchId ?s" by blast
  obtain s' where cl: "closeBatch (tx_at 1 170) 1 ?s = Inr s'"
    by (simp add: demo_defs)
  from th cl have after: "\<not> isOpen (batches s' 1)"
      "unat (currentBatchId s') = unat (currentBatchId ?s) + 1"
      "batches s' (currentBatchId s') = zero_batch"
      "\<forall>t' s''. openBatch t' s' = Inr s'' \<longrightarrow>
         isOpen (batches s'' (currentBatchId s')) \<and>
         batch_id (batches s'' (currentBatchId s')) = currentBatchId ?s + 1"
    by blast+
  have s'_eq: "s' = step demo_env ?s (tx_at 1 170, CloseBatch 1)"
    using cl by (simp add: step_def commit_def)
  obtain s'' where op: "openBatch (tx_at 1 240) s' = Inr s''"
    unfolding s'_eq by (simp add: demo_defs)
  from after(4) op have "isOpen (batches s'' (currentBatchId s')) \<and>
      batch_id (batches s'' (currentBatchId s')) = currentBatchId ?s + 1"
    by blast
  then have "isOpen (batches s'' (currentBatchId s')) \<and>
      batch_id (batches s'' (currentBatchId s')) = 2"
    using cur[symmetric] by simp
  moreover have "unat (currentBatchId s') = 2" using after(2) cur[symmetric] by simp
  ultimately show ?thesis using open1 cur cl after(1,3) op by auto
qed

section \<open>The two counters\<close>

text \<open>
  C9. The deployment starts with \<open>totalBatches = 0\<close> and \<open>currentBatchId = 1\<close>. In every
  reachable state \<open>totalBatches\<close> equals \<open>currentBatchId\<close> when the batch at
  \<open>currentBatchId\<close> is open and \<open>currentBatchId - 1\<close> otherwise (as words and as numbers:
  \<open>currentBatchId\<close> is at least 1); \<open>totalBatches\<close> is the number of \<open>openBatch\<close> calls of
  the execution that returned, and \<open>currentBatchId - 1\<close> the number of \<open>closeBatch\<close> calls
  that returned.
\<close>

theorem batch_counters:
  fixes e :: env and d :: address and xs :: "(tx \<times> call) list"
  defines "s \<equiv> run e (constructor d) xs"
  shows "totalBatches (constructor d) = 0 \<and> currentBatchId (constructor d) = 1 \<and>
         1 \<le> unat (currentBatchId s) \<and>
         unat (totalBatches s) =
           (if isOpen (batches s (currentBatchId s)) then unat (currentBatchId s)
            else unat (currentBatchId s) - 1) \<and>
         totalBatches s =
           (if isOpen (batches s (currentBatchId s)) then currentBatchId s
            else currentBatchId s - 1) \<and>
         unat (totalBatches s) = successes is_openBatch e (constructor d) xs \<and>
         unat (currentBatchId s) - 1 = successes is_closeBatch e (constructor d) xs"
proof -
  have inv: "counters_ok s"
    using ledger_inv_reachable[of e d xs] by (simp add: ledger_inv_def s_def)
  then have nz: "currentBatchId s \<noteq> 0" by (simp add: counters_ok_def)
  then have pos: "1 \<le> unat (currentBatchId s)" by (simp add: unat_gt_0 Suc_le_eq)
  have nat_eq: "unat (totalBatches s) =
           (if isOpen (batches s (currentBatchId s)) then unat (currentBatchId s)
            else unat (currentBatchId s) - 1)"
    using inv by (simp add: counters_ok_def)
  have pred: "unat (currentBatchId s - 1) = unat (currentBatchId s) - 1"
    using nz by (simp add: unat_minus_one)
  have word_eq: "totalBatches s =
           (if isOpen (batches s (currentBatchId s)) then currentBatchId s
            else currentBatchId s - 1)"
    using nat_eq pred by (auto simp: word_unat_eq_iff)
  have opens: "unat (totalBatches s) = successes is_openBatch e (constructor d) xs"
    using total_run[of e "constructor d" xs] by (simp add: s_def constructor_def)
  have closes: "unat (currentBatchId s) - 1 = successes is_closeBatch e (constructor d) xs"
    using current_run[of e "constructor d" xs] by (simp add: s_def constructor_def)
  show ?thesis using pos nat_eq word_eq opens closes by (simp add: constructor_def)
qed

theorem batch_counters_witness:
  "successes is_openBatch demo_env (constructor 1)
     [(tx_at 1 100, OpenBatch), (tx_at 1 110, OpenBatch), (tx_at 1 170, CloseBatch 1),
      (tx_at 2 180, CloseBatch 2), (tx_at 1 240, OpenBatch)] = 2 \<and>
   successes is_closeBatch demo_env (constructor 1)
     [(tx_at 1 100, OpenBatch), (tx_at 1 110, OpenBatch), (tx_at 1 170, CloseBatch 1),
      (tx_at 2 180, CloseBatch 2), (tx_at 1 240, OpenBatch)] = 1 \<and>
   unat (totalBatches (run demo_env (constructor 1)
     [(tx_at 1 100, OpenBatch), (tx_at 1 110, OpenBatch), (tx_at 1 170, CloseBatch 1),
      (tx_at 2 180, CloseBatch 2), (tx_at 1 240, OpenBatch)])) = 2 \<and>
   unat (currentBatchId (run demo_env (constructor 1)
     [(tx_at 1 100, OpenBatch), (tx_at 1 110, OpenBatch), (tx_at 1 170, CloseBatch 1),
      (tx_at 2 180, CloseBatch 2), (tx_at 1 240, OpenBatch)])) = 2"
proof -
  let ?xs = "[(tx_at 1 100, OpenBatch), (tx_at 1 110, OpenBatch), (tx_at 1 170, CloseBatch 1),
      (tx_at 2 180, CloseBatch 2), (tx_at 1 240, OpenBatch)]"
  note th = batch_counters[where e = demo_env and d = 1 and xs = ?xs]
  have opens: "successes is_openBatch demo_env (constructor 1) ?xs = 2"
    by (simp add: demo_defs succeeds_def)
  have closes: "successes is_closeBatch demo_env (constructor 1) ?xs = 1"
    by (simp add: demo_defs succeeds_def)
  from th have tot: "unat (totalBatches (run demo_env (constructor 1) ?xs)) =
      successes is_openBatch demo_env (constructor 1) ?xs"
    and cur: "unat (currentBatchId (run demo_env (constructor 1) ?xs)) - 1 =
      successes is_closeBatch demo_env (constructor 1) ?xs"
    and pos: "1 \<le> unat (currentBatchId (run demo_env (constructor 1) ?xs))"
    by blast+
  from cur pos have "unat (currentBatchId (run demo_env (constructor 1) ?xs)) = 2"
    unfolding closes by linarith
  then show ?thesis using tot opens closes by (simp only:)
qed

section \<open>Transferring the ownership\<close>

text \<open>
  C10. At deployment the deployer is the owner and a provider. A \<open>transferOwnership\<close> that
  returns writes the field \<open>owner\<close> and nothing else of the storage (the log receives
  \<open>OwnershipTransferred\<close>): the providers are the same, so the old owner stays a provider
  when it was one, and a new owner that is no provider cannot open, close or submit: these
  calls revert with \<open>NotProvider\<close>.
\<close>

theorem transferOwnership_frame:
  "owner (constructor d) = d \<and> isProvider (constructor d) d \<and>
   (\<forall>s'. transferOwnership t newOwner s = Inr s' \<longrightarrow>
      msg_sender t = owner s \<and> newOwner \<noteq> 0 \<and>
      s' = s\<lparr>owner := newOwner, events := events s @ [OwnershipTransferred (owner s) newOwner]\<rparr> \<and>
      isProvider s' = isProvider s \<and>
      (isProvider s (owner s) \<longrightarrow> isProvider s' (owner s)) \<and>
      (\<not> isProvider s newOwner \<longrightarrow>
         (\<forall>t'. msg_sender t' = newOwner \<longrightarrow>
            openBatch t' s' = Inl NotProvider \<and>
            (\<forall>b. closeBatch t' b s' = Inl NotProvider) \<and>
            (\<forall>e b h1 h2. submitUpdate e t' b h1 h2 s' = Inl NotProvider))))"
  by (auto simp: constructor_def transferOwnership_def emit_def openBatch_def closeBatch_def
      submitUpdate_def split: if_splits)

theorem transferOwnership_frame_witness:
  "(\<exists>s'. transferOwnership (tx_at 1 50) 2 (constructor 1) = Inr s' \<and>
      owner s' = 2 \<and> isProvider s' 1 \<and> \<not> isProvider s' 2 \<and>
      openBatch (tx_at 2 100) s' = Inl NotProvider \<and>
      closeBatch (tx_at 2 100) 1 s' = Inl NotProvider \<and>
      submitUpdate demo_env (tx_at 2 100) 1 11 22 s' = Inl NotProvider \<and>
      succeeds (openBatch (tx_at 1 100) s'))"
proof -
  note th = transferOwnership_frame[where d = 1 and t = "tx_at 1 50" and newOwner = 2
      and s = "constructor 1"]
  obtain s' where tr: "transferOwnership (tx_at 1 50) 2 (constructor 1) = Inr s'"
    by (simp add: demo_defs)
  have old: "isProvider (constructor 1) (owner (constructor 1))"
    and new: "\<not> isProvider (constructor 1) 2"
    and snd: "msg_sender (tx_at 2 100) = 2"
    by (simp_all add: demo_defs)
  from th tr have eff: "s' = (constructor 1)\<lparr>owner := 2,
        events := events (constructor 1) @ [OwnershipTransferred (owner (constructor 1)) 2]\<rparr>"
    and same: "isProvider s' = isProvider (constructor 1)"
    and keep: "isProvider (constructor 1) (owner (constructor 1)) \<longrightarrow>
        isProvider s' (owner (constructor 1))"
    and lock: "\<not> isProvider (constructor 1) 2 \<longrightarrow>
         (\<forall>t'. msg_sender t' = 2 \<longrightarrow>
            openBatch t' s' = Inl NotProvider \<and>
            (\<forall>b. closeBatch t' b s' = Inl NotProvider) \<and>
            (\<forall>e b h1 h2. submitUpdate e t' b h1 h2 s' = Inl NotProvider))"
    by blast+
  from lock new snd have locked: "openBatch (tx_at 2 100) s' = Inl NotProvider"
      "closeBatch (tx_at 2 100) 1 s' = Inl NotProvider"
      "submitUpdate demo_env (tx_at 2 100) 1 11 22 s' = Inl NotProvider"
    by blast+
  have "owner s' = 2" by (simp add: eff)
  moreover have "isProvider s' 1" using keep old by (simp add: constructor_def)
  moreover have "\<not> isProvider s' 2" using same new by simp
  moreover have "succeeds (openBatch (tx_at 1 100) s')"
    unfolding eff by (simp add: demo_defs succeeds_def)
  ultimately show ?thesis using tr locked by blast
qed

section \<open>The pause switch\<close>

text \<open>
  C3. The claim: while paused, every state-changing function reverts with \<open>PausedState\<close>,
  \<open>setCooldownSeconds\<close>, \<open>transferOwnership\<close>, \<open>addProvider\<close> and \<open>removeProvider\<close>
  included. These four carry the modifier \<open>onlyOwner\<close> alone: in the execution below the
  owner pauses the contract and then changes the cooldown, the owner and the providers.
\<close>

theorem pause_gate_counterexample:
  "paused (run demo_env (constructor 1) [(tx_at 1 10, Pause)]) \<and>
   setCooldownSeconds (tx_at 1 20) 5 (run demo_env (constructor 1) [(tx_at 1 10, Pause)])
     \<noteq> Inl PausedState \<and>
   cooldownSeconds (run demo_env (constructor 1) [(tx_at 1 10, Pause)]) = 60 \<and>
   cooldownSeconds (run demo_env (constructor 1)
     [(tx_at 1 10, Pause), (tx_at 1 20, SetCooldownSeconds 5)]) = 5 \<and>
   owner (run demo_env (constructor 1)
     [(tx_at 1 10, Pause), (tx_at 1 20, TransferOwnership 2)]) = 2 \<and>
   isProvider (run demo_env (constructor 1)
     [(tx_at 1 10, Pause), (tx_at 1 20, AddProvider 3)]) 3 \<and>
   \<not> isProvider (run demo_env (constructor 1)
     [(tx_at 1 10, Pause), (tx_at 1 20, RemoveProvider 1)]) 1"
  by (simp add: demo_defs)

text \<open>
  C3, as the contract has it. While paused, \<open>openBatch\<close>, \<open>closeBatch\<close>, \<open>submitUpdate\<close> and
  \<open>requestBatchDecryption\<close> revert and leave the state as it was: with \<open>PausedState\<close> for a
  provider, with \<open>NotProvider\<close> for any other caller (\<open>onlyProvider\<close> is the first modifier).
  The owner's \<open>pause\<close> reverts with \<open>PausedState\<close>; the owner's \<open>setCooldownSeconds\<close>,
  \<open>transferOwnership\<close>, \<open>addProvider\<close> and \<open>removeProvider\<close> are not gated and take effect.
\<close>

theorem pause_gate:
  assumes "paused s"
  shows "(isProvider s (msg_sender t) \<longrightarrow>
            openBatch t s = Inl PausedState \<and>
            closeBatch t b s = Inl PausedState \<and>
            submitUpdate e t b h1 h2 s = Inl PausedState \<and>
            requestBatchDecryption e t b r s = Inl PausedState) \<and>
         (\<not> isProvider s (msg_sender t) \<longrightarrow>
            openBatch t s = Inl NotProvider \<and>
            closeBatch t b s = Inl NotProvider \<and>
            submitUpdate e t b h1 h2 s = Inl NotProvider \<and>
            requestBatchDecryption e t b r s = Inl NotProvider) \<and>
         step e s (t, OpenBatch) = s \<and>
         step e s (t, CloseBatch b) = s \<and>
         step e s (t, SubmitUpdate b h1 h2) = s \<and>
         step e s (t, RequestBatchDecryption b r) = s \<and>
         (msg_sender t = owner s \<longrightarrow>
            pause t s = Inl PausedState \<and>
            setCooldownSeconds t n s =
              Inr (s\<lparr>cooldownSeconds := n,
                     events := events s @ [CooldownSecondsSet (cooldownSeconds s) n]\<rparr>) \<and>
            (a \<noteq> 0 \<longrightarrow> transferOwnership t a s =
              Inr (s\<lparr>owner := a, events := events s @ [OwnershipTransferred (owner s) a]\<rparr>)) \<and>
            (a \<noteq> 0 \<and> \<not> isProvider s a \<longrightarrow> addProvider t a s =
              Inr (s\<lparr>isProvider := (isProvider s)(a := True),
                     events := events s @ [ProviderAdded a]\<rparr>)) \<and>
            (isProvider s a \<longrightarrow> removeProvider t a s =
              Inr (s\<lparr>isProvider := (isProvider s)(a := False),
                     events := events s @ [ProviderRemoved a]\<rparr>)))"
proof -
  have gated: "openBatch t s = Inl (if isProvider s (msg_sender t) then PausedState else NotProvider)"
    "closeBatch t b s = Inl (if isProvider s (msg_sender t) then PausedState else NotProvider)"
    "submitUpdate e t b h1 h2 s =
       Inl (if isProvider s (msg_sender t) then PausedState else NotProvider)"
    "requestBatchDecryption e t b r s =
       Inl (if isProvider s (msg_sender t) then PausedState else NotProvider)"
    using assms
    by (simp_all add: openBatch_def closeBatch_def submitUpdate_def requestBatchDecryption_def)
  have unchanged: "step e s (t, OpenBatch) = s" "step e s (t, CloseBatch b) = s"
    "step e s (t, SubmitUpdate b h1 h2) = s" "step e s (t, RequestBatchDecryption b r) = s"
    by (simp_all add: step_def commit_def gated)
  have admin: "pause t s = Inl PausedState"
    "setCooldownSeconds t n s =
       Inr (s\<lparr>cooldownSeconds := n,
              events := events s @ [CooldownSecondsSet (cooldownSeconds s) n]\<rparr>)"
    "a \<noteq> 0 \<longrightarrow> transferOwnership t a s =
       Inr (s\<lparr>owner := a, events := events s @ [OwnershipTransferred (owner s) a]\<rparr>)"
    "a \<noteq> 0 \<and> \<not> isProvider s a \<longrightarrow> addProvider t a s =
       Inr (s\<lparr>isProvider := (isProvider s)(a := True), events := events s @ [ProviderAdded a]\<rparr>)"
    "isProvider s a \<longrightarrow> removeProvider t a s =
       Inr (s\<lparr>isProvider := (isProvider s)(a := False),
              events := events s @ [ProviderRemoved a]\<rparr>)"
    if "msg_sender t = owner s"
    using that assms
    by (simp_all add: pause_def setCooldownSeconds_def transferOwnership_def addProvider_def
        removeProvider_def emit_def)
  show ?thesis using gated unchanged admin by simp
qed

theorem pause_gate_witness:
  "paused (run demo_env (constructor 1) [(tx_at 1 10, Pause)]) \<and>
   isProvider (run demo_env (constructor 1) [(tx_at 1 10, Pause)]) (msg_sender (tx_at 1 100)) \<and>
   msg_sender (tx_at 1 100) = owner (run demo_env (constructor 1) [(tx_at 1 10, Pause)]) \<and>
   openBatch (tx_at 1 100) (run demo_env (constructor 1) [(tx_at 1 10, Pause)])
     = Inl PausedState \<and>
   closeBatch (tx_at 1 100) 1 (run demo_env (constructor 1) [(tx_at 1 10, Pause)])
     = Inl PausedState \<and>
   submitUpdate demo_env (tx_at 1 100) 1 11 22 (run demo_env (constructor 1) [(tx_at 1 10, Pause)])
     = Inl PausedState \<and>
   requestBatchDecryption demo_env (tx_at 1 100) 1 5
     (run demo_env (constructor 1) [(tx_at 1 10, Pause)]) = Inl PausedState \<and>
   pause (tx_at 1 100) (run demo_env (constructor 1) [(tx_at 1 10, Pause)]) = Inl PausedState \<and>
   succeeds (setCooldownSeconds (tx_at 1 100) 5
     (run demo_env (constructor 1) [(tx_at 1 10, Pause)])) \<and>
   succeeds (transferOwnership (tx_at 1 100) 2
     (run demo_env (constructor 1) [(tx_at 1 10, Pause)])) \<and>
   succeeds (addProvider (tx_at 1 100) 2
     (run demo_env (constructor 1) [(tx_at 1 10, Pause)])) \<and>
   \<not> isProvider (run demo_env (constructor 1) [(tx_at 1 10, Pause)]) (msg_sender (tx_at 2 100)) \<and>
   openBatch (tx_at 2 100) (run demo_env (constructor 1) [(tx_at 1 10, Pause)])
     = Inl NotProvider"
proof -
  let ?s = "run demo_env (constructor 1) [(tx_at 1 10, Pause)]"
  have p: "paused ?s" by (simp add: demo_defs)
  have prov: "isProvider ?s (msg_sender (tx_at 1 100))"
    and own: "msg_sender (tx_at 1 100) = owner ?s"
    and other: "\<not> isProvider ?s (msg_sender (tx_at 2 100))"
    and fresh: "(2::address) \<noteq> 0 \<and> \<not> isProvider ?s 2"
    by (simp_all add: demo_defs)
  note th1 = pause_gate[OF p, where t = "tx_at 1 100" and e = demo_env and b = 1 and ?h1.0 = 11
      and ?h2.0 = 22 and r = 5 and n = 5 and a = 2]
  note th2 = pause_gate[OF p, where t = "tx_at 2 100" and e = demo_env and b = 1 and ?h1.0 = 11
      and ?h2.0 = 22 and r = 5 and n = 5 and a = 2]
  from th1 prov have gated: "openBatch (tx_at 1 100) ?s = Inl PausedState"
      "closeBatch (tx_at 1 100) 1 ?s = Inl PausedState"
      "submitUpdate demo_env (tx_at 1 100) 1 11 22 ?s = Inl PausedState"
      "requestBatchDecryption demo_env (tx_at 1 100) 1 5 ?s = Inl PausedState"
    by blast+
  from th1 own fresh have admin: "pause (tx_at 1 100) ?s = Inl PausedState"
      "succeeds (setCooldownSeconds (tx_at 1 100) 5 ?s)"
      "succeeds (transferOwnership (tx_at 1 100) 2 ?s)"
      "succeeds (addProvider (tx_at 1 100) 2 ?s)"
    by (simp_all add: succeeds_def)
  from th2 other have "openBatch (tx_at 2 100) ?s = Inl NotProvider" by blast
  then show ?thesis using p prov own other gated admin by blast
qed

section \<open>One completion event for each completed request\<close>

lemma completions_append:
  "completions r (s\<lparr>events := events s @ [ev]\<rparr>) = completions r s + (if is_completion r ev then 1 else 0)"
  by (simp add: completions_def)

lemma context_frame:
  assumes "dispatch e t c s = Inr s'" "\<forall>r cl p. c \<noteq> MyCallback r cl p"
    "\<forall>b r. c \<noteq> RequestBatchDecryption b r"
  shows "decryptionContexts s' = decryptionContexts s \<and> completions r s' = completions r s"
proof (cases c)
  case OpenBatch
  with assms(1) have ok: "openBatch t s = Inr s'" by simp
  show ?thesis by (simp add: openBatch_Inr(6)[OF ok] completions_def)
next
  case (CloseBatch b)
  with assms(1) have ok: "closeBatch t b s = Inr s'" by simp
  show ?thesis by (simp add: closeBatch_Inr(6)[OF ok] completions_def)
next
  case (SubmitUpdate b h1 h2)
  with assms(1) have ok: "submitUpdate e t b h1 h2 s = Inr s'" by simp
  show ?thesis by (simp add: submitUpdate_Inr(8)[OF ok] completions_def)
qed (use assms in \<open>auto simp: transferOwnership_def addProvider_def removeProvider_def pause_def
      unpause_def setCooldownSeconds_def emit_def completions_def split: if_splits\<close>)

lemma replay_inv_myCallback:
  assumes "replay_inv s" "myCallback e t r c p s = Inr s'"
  shows "replay_inv s'"
proof -
  from myCallback_Inr[OF assms(2)] obtain v1 v2 where
    pend: "\<not> processed (decryptionContexts s r)" and
    eff: "s' = s\<lparr>decryptionContexts := (decryptionContexts s)(r :=
                 (decryptionContexts s r)\<lparr>processed := True\<rparr>),
            events := events s @ [DecryptionCompleted r (batchId (decryptionContexts s r)) v1 v2
                                    (block_timestamp t)]\<rparr>"
    by blast
  have "completions r' s' = (if processed (decryptionContexts s' r') then 1 else 0)" for r'
  proof -
    have old: "completions r' s = (if processed (decryptionContexts s r') then 1 else 0)"
      using assms(1) unfolding replay_inv_def by blast
    show ?thesis
    proof (cases "r' = r")
      case True
      then show ?thesis using old pend by (simp add: eff completions_def)
    next
      case False
      then show ?thesis using old by (simp add: eff completions_def)
    qed
  qed
  then show ?thesis unfolding replay_inv_def by blast
qed

lemma replay_inv_dispatch:
  assumes "ledger_inv s" "replay_inv s" "dispatch e t c s = Inr s'"
  shows "replay_inv s'"
proof (cases c)
  case (RequestBatchDecryption b r)
  with assms(3) requestBatchDecryption_never_succeeds[OF assms(1)] show ?thesis by simp
next
  case (MyCallback r cl p)
  with assms(3) have "myCallback e t r cl p s = Inr s'" by simp
  then show ?thesis by (rule replay_inv_myCallback[OF assms(2)])
next
  case (TransferOwnership a)
  then show ?thesis using context_frame[OF assms(3)] assms(2) unfolding replay_inv_def by simp
next
  case (AddProvider a)
  then show ?thesis using context_frame[OF assms(3)] assms(2) unfolding replay_inv_def by simp
next
  case (RemoveProvider a)
  then show ?thesis using context_frame[OF assms(3)] assms(2) unfolding replay_inv_def by simp
next
  case Pause
  then show ?thesis using context_frame[OF assms(3)] assms(2) unfolding replay_inv_def by simp
next
  case Unpause
  then show ?thesis using context_frame[OF assms(3)] assms(2) unfolding replay_inv_def by simp
next
  case (SetCooldownSeconds n)
  then show ?thesis using context_frame[OF assms(3)] assms(2) unfolding replay_inv_def by simp
next
  case OpenBatch
  then show ?thesis using context_frame[OF assms(3)] assms(2) unfolding replay_inv_def by simp
next
  case (CloseBatch b)
  then show ?thesis using context_frame[OF assms(3)] assms(2) unfolding replay_inv_def by simp
next
  case (SubmitUpdate b h1 h2)
  then show ?thesis using context_frame[OF assms(3)] assms(2) unfolding replay_inv_def by simp
qed

lemma replay_inv_step:
  "ledger_inv s \<Longrightarrow> replay_inv s \<Longrightarrow> replay_inv (step e s x)"
  by (cases "dispatch e (fst x) (snd x) s")
     (simp_all add: step_def commit_def replay_inv_dispatch)

lemma replay_inv_run:
  "ledger_inv s \<Longrightarrow> replay_inv s \<Longrightarrow> replay_inv (run e s xs)"
  by (induction xs arbitrary: s) (simp_all add: run_Nil run_Cons replay_inv_step ledger_inv_step)

lemma replay_inv_constructor: "replay_inv (constructor d)"
  by (simp add: replay_inv_def completions_def constructor_def zero_context_def)

lemma replay_inv_reachable: "replay_inv (run e (constructor d) xs)"
  by (simp add: replay_inv_run replay_inv_constructor ledger_inv_constructor)

section \<open>The callback of the oracle\<close>

text \<open>
  C2. The claim: \<open>myCallback\<close> for a request identifier under which no request was ever stored
  fails with an error of its own, UnknownRequest. The contract declares no such error and does
  not test whether the entry exists: it reads the entry, which is all zero, and goes on to
  compare digests. At the deployment, for the identifier 7, the call reverts with
  \<open>StateMismatch\<close>.
\<close>

theorem myCallback_unknown_request_counterexample:
  "decryptionContexts (constructor 1) 7 = zero_context \<and>
   myCallback demo_env (tx_at 9 50) 7 [] [] (constructor 1) = Inl StateMismatch"
  by (simp add: demo_defs)

text \<open>
  C2, as the contract has it. In a state that an execution reaches from the deployment, let the
  entry of the request identifier be the zero entry (nothing was stored under it), and let the
  digest of two zero handles not be the zero word. Then \<open>myCallback\<close> reverts with
  \<open>StateMismatch\<close>, whatever the payload and the proof, and the state stays as it was. (The
  zero entry names batch 0 and the digest 0; batch 0 is never written.)
\<close>

theorem myCallback_unknown_request:
  assumes "decryptionContexts (run e (constructor d) xs) r = zero_context"
    and "hashCiphertexts e [0, 0] \<noteq> 0"
  shows "myCallback e t r c p (run e (constructor d) xs) = Inl StateMismatch \<and>
         step e (run e (constructor d) xs) (t, MyCallback r c p) = run e (constructor d) xs"
proof -
  let ?s = "run e (constructor d) xs"
  have "fresh_above ?s" using ledger_inv_reachable[of e d xs] by (simp add: ledger_inv_def)
  then have b0: "batches ?s 0 = zero_batch" by (simp add: fresh_above_def)
  have rev: "myCallback e t r c p ?s = Inl StateMismatch"
    using assms by (simp add: myCallback_def b0 zero_batch_def zero_context_def)
  then show ?thesis by (simp add: step_def commit_def)
qed

theorem myCallback_unknown_request_witness:
  "decryptionContexts (run demo_env (constructor 1) [(tx_at 1 100, OpenBatch)]) 7 = zero_context \<and>
   hashCiphertexts demo_env [0, 0] \<noteq> 0 \<and>
   myCallback demo_env (tx_at 9 200) 7 [] [] (run demo_env (constructor 1) [(tx_at 1 100, OpenBatch)])
     = Inl StateMismatch \<and>
   step demo_env (run demo_env (constructor 1) [(tx_at 1 100, OpenBatch)])
     (tx_at 9 200, MyCallback 7 [] [])
     = run demo_env (constructor 1) [(tx_at 1 100, OpenBatch)]"
proof -
  have a: "decryptionContexts (run demo_env (constructor 1) [(tx_at 1 100, OpenBatch)]) 7
      = zero_context"
    by (simp add: demo_defs)
  have b: "hashCiphertexts demo_env [0, 0] \<noteq> 0" by (simp add: demo_defs)
  show ?thesis
    using a b myCallback_unknown_request[OF a b, where t = "tx_at 9 200" and c = "[]" and p = "[]"]
    by blast
qed

text \<open>
  C5. For a request that is completed (\<open>processed\<close>), \<open>myCallback\<close> reverts with
  \<open>ReplayAttempt\<close> for every payload and proof; the storage and the log stay as they were, so
  no second completion event is logged. In every execution from the deployment the log holds
  at most one \<open>DecryptionCompleted\<close> event for a request identifier.
\<close>

theorem replay_rejected:
  "(processed (decryptionContexts s r) \<longrightarrow>
      myCallback e t r c p s = Inl ReplayAttempt \<and>
      step e s (t, MyCallback r c p) = s \<and>
      completions r (step e s (t, MyCallback r c p)) = completions r s) \<and>
   completions r (run e (constructor d) xs) \<le> 1"
proof -
  have rev: "myCallback e t r c p s = Inl ReplayAttempt" if "processed (decryptionContexts s r)"
    using that by (simp add: myCallback_def)
  have "completions r (run e (constructor d) xs) =
      (if processed (decryptionContexts (run e (constructor d) xs) r) then 1 else 0)"
    using replay_inv_reachable[of e d xs] unfolding replay_inv_def by blast
  then have "completions r (run e (constructor d) xs) \<le> 1" by simp
  then show ?thesis using rev by (simp add: step_def commit_def)
qed

theorem replay_rejected_witness:
  "processed (decryptionContexts
     (with_request \<lparr>batchId = 1, stateHash = hashCiphertexts demo_env [11, 22], processed = True\<rparr>) 7) \<and>
   myCallback demo_env (tx_at 9 300) 7 [1, 2, 3] []
     (with_request \<lparr>batchId = 1, stateHash = hashCiphertexts demo_env [11, 22], processed = True\<rparr>)
     = Inl ReplayAttempt \<and>
   step demo_env
     (with_request \<lparr>batchId = 1, stateHash = hashCiphertexts demo_env [11, 22], processed = True\<rparr>)
     (tx_at 9 300, MyCallback 7 [1, 2, 3] [])
     = with_request \<lparr>batchId = 1, stateHash = hashCiphertexts demo_env [11, 22], processed = True\<rparr>"
proof -
  let ?s = "with_request \<lparr>batchId = 1, stateHash = hashCiphertexts demo_env [11, 22],
      processed = True\<rparr>"
  have compl: "processed (decryptionContexts ?s 7)" by (simp add: with_request_def)
  from replay_rejected[where s = ?s and r = 7 and e = demo_env and t = "tx_at 9 300"
      and c = "[1, 2, 3]" and p = "[]" and d = 1 and xs = "[]"] compl
  show ?thesis by blast
qed



section \<open>The cooldown of the submission class\<close>

text \<open>The modifier \<open>respectCooldown\<close> on \<open>openBatch\<close> and \<open>submitUpdate\<close>, for a provider
  while not paused: the sum of the last submission time and the cooldown is computed with
  checked arithmetic before it is compared.\<close>

lemma submission_guard:
  assumes "isProvider s (msg_sender t)" "\<not> paused s"
  shows "2 ^ 256 \<le> unat (lastSubmissionTime s (msg_sender t)) + unat (cooldownSeconds s) \<Longrightarrow>
           openBatch t s = Inl PanicOverflow \<and> submitUpdate e t b h1 h2 s = Inl PanicOverflow"
    and "unat (lastSubmissionTime s (msg_sender t)) + unat (cooldownSeconds s) < 2 ^ 256 \<Longrightarrow>
         unat (block_timestamp t) < unat (lastSubmissionTime s (msg_sender t)) + unat (cooldownSeconds s) \<Longrightarrow>
           openBatch t s = Inl CooldownActive \<and> submitUpdate e t b h1 h2 s = Inl CooldownActive"
    and "unat (lastSubmissionTime s (msg_sender t)) + unat (cooldownSeconds s) \<le> unat (block_timestamp t) \<Longrightarrow>
           respectCooldown s t (msg_sender t) (lastSubmissionTime s) = Inr ()"
proof -
  have small: "unat (block_timestamp t) < 2 ^ 256"
    using unsigned_less[of "block_timestamp t", where 'a = nat] by simp
  show "2 ^ 256 \<le> unat (lastSubmissionTime s (msg_sender t)) + unat (cooldownSeconds s) \<Longrightarrow>
           openBatch t s = Inl PanicOverflow \<and> submitUpdate e t b h1 h2 s = Inl PanicOverflow"
    using assms by (simp add: openBatch_def submitUpdate_def respectCooldown_cases)
  show "unat (lastSubmissionTime s (msg_sender t)) + unat (cooldownSeconds s) < 2 ^ 256 \<Longrightarrow>
         unat (block_timestamp t) < unat (lastSubmissionTime s (msg_sender t)) + unat (cooldownSeconds s) \<Longrightarrow>
           openBatch t s = Inl CooldownActive \<and> submitUpdate e t b h1 h2 s = Inl CooldownActive"
    using assms by (simp add: openBatch_def submitUpdate_def respectCooldown_cases)
  show "unat (lastSubmissionTime s (msg_sender t)) + unat (cooldownSeconds s) \<le> unat (block_timestamp t) \<Longrightarrow>
           respectCooldown s t (msg_sender t) (lastSubmissionTime s) = Inr ()"
    using small by (simp add: respectCooldown_cases)
qed

text \<open>
  C7. The claim: a second submission action at a time below
  \<open>lastActionTime + cooldownSeconds\<close> fails with \<open>CooldownActive\<close>. The sum is a checked
  \<^verbatim>\<open>uint256\<close> addition. In the execution below the deployer submits at time 160, the owner
  sets the cooldown to the largest \<^verbatim>\<open>uint256\<close>, and the deployer submits again at time 200,
  which is below the sum: the call reverts with the overflow panic, not with
  \<open>CooldownActive\<close>.
\<close>

theorem submission_cooldown_counterexample:
  "lastSubmissionTime (run demo_env (constructor 1)
      [(tx_at 1 100, OpenBatch), (tx_at 1 160, SubmitUpdate 1 11 22),
       (tx_at 1 170, SetCooldownSeconds max_uint256)]) 1 = 160 \<and>
   unat (block_timestamp (tx_at 1 200)) <
     unat (lastSubmissionTime (run demo_env (constructor 1)
      [(tx_at 1 100, OpenBatch), (tx_at 1 160, SubmitUpdate 1 11 22),
       (tx_at 1 170, SetCooldownSeconds max_uint256)]) 1) +
     unat (cooldownSeconds (run demo_env (constructor 1)
      [(tx_at 1 100, OpenBatch), (tx_at 1 160, SubmitUpdate 1 11 22),
       (tx_at 1 170, SetCooldownSeconds max_uint256)])) \<and>
   submitUpdate demo_env (tx_at 1 200) 1 11 22 (run demo_env (constructor 1)
      [(tx_at 1 100, OpenBatch), (tx_at 1 160, SubmitUpdate 1 11 22),
       (tx_at 1 170, SetCooldownSeconds max_uint256)]) = Inl PanicOverflow"
  by (simp add: demo_defs)

text \<open>
  C7, as the contract has it. In a state reached from the deployment, for a caller that is a
  provider while the contract is not paused, write \<open>deadline\<close> for the caller's last
  submission time plus the cooldown, as numbers. When \<open>deadline\<close> fits in 256 bits and the
  time of the call is below it, \<open>openBatch\<close> and \<open>submitUpdate\<close> revert with
  \<open>CooldownActive\<close> and record nothing; when \<open>deadline\<close> does not fit they revert with the
  overflow panic and record nothing; when the time of the call has reached \<open>deadline\<close> and
  the other conditions of the call hold (for \<open>openBatch\<close>: the active batch is not open; for
  \<open>submitUpdate\<close>: the batch is the active one, it is open, and both handles are
  initialized), the call returns and records its time as the caller's last submission time.
\<close>

theorem submission_cooldown:
  fixes e :: env and d :: address and xs :: "(tx \<times> call) list" and t :: tx
  defines "s \<equiv> run e (constructor d) xs"
  defines "deadline \<equiv> unat (lastSubmissionTime s (msg_sender t)) + unat (cooldownSeconds s)"
  assumes "isProvider s (msg_sender t)" and "\<not> paused s"
  shows "(deadline < 2 ^ 256 \<and> unat (block_timestamp t) < deadline \<longrightarrow>
            openBatch t s = Inl CooldownActive \<and>
            submitUpdate e t b h1 h2 s = Inl CooldownActive \<and>
            step e s (t, OpenBatch) = s \<and> step e s (t, SubmitUpdate b h1 h2) = s) \<and>
         (2 ^ 256 \<le> deadline \<longrightarrow>
            openBatch t s = Inl PanicOverflow \<and>
            submitUpdate e t b h1 h2 s = Inl PanicOverflow \<and>
            step e s (t, OpenBatch) = s \<and> step e s (t, SubmitUpdate b h1 h2) = s) \<and>
         (deadline \<le> unat (block_timestamp t) \<longrightarrow>
            (\<not> isOpen (batches s (currentBatchId s)) \<longrightarrow>
               (\<exists>s'. openBatch t s = Inr s' \<and>
                  lastSubmissionTime s' (msg_sender t) = block_timestamp t)) \<and>
            (b = currentBatchId s \<and> isOpen (batches s b) \<and>
             isInitialized e h1 \<and> isInitialized e h2 \<longrightarrow>
               (\<exists>s'. submitUpdate e t b h1 h2 s = Inr s' \<and>
                  lastSubmissionTime s' (msg_sender t) = block_timestamp t)))"
proof -
  note guard = submission_guard(1)[OF assms(3,4), of e b h1 h2, folded deadline_def]
    submission_guard(2)[OF assms(3,4), of e b h1 h2, folded deadline_def]
    submission_guard(3)[OF assms(3,4), folded deadline_def]
  have active: "openBatch t s = Inl CooldownActive \<and>
      submitUpdate e t b h1 h2 s = Inl CooldownActive \<and>
      step e s (t, OpenBatch) = s \<and> step e s (t, SubmitUpdate b h1 h2) = s"
    if "deadline < 2 ^ 256" "unat (block_timestamp t) < deadline"
    using guard(2)[OF that] by (simp add: step_def commit_def)
  have panic: "openBatch t s = Inl PanicOverflow \<and>
      submitUpdate e t b h1 h2 s = Inl PanicOverflow \<and>
      step e s (t, OpenBatch) = s \<and> step e s (t, SubmitUpdate b h1 h2) = s"
    if "2 ^ 256 \<le> deadline"
    using guard(1)[OF that] by (simp add: step_def commit_def)
  have co: "counters_ok s"
    using ledger_inv_reachable[of e d xs] by (simp add: ledger_inv_def s_def)
  have opens: "\<exists>s'. openBatch t s = Inr s' \<and>
      lastSubmissionTime s' (msg_sender t) = block_timestamp t"
    if el: "deadline \<le> unat (block_timestamp t)" and cl: "\<not> isOpen (batches s (currentBatchId s))"
  proof -
    have "0 < unat (currentBatchId s)" using co by (simp add: counters_ok_def unat_gt_0)
    moreover have "unat (totalBatches s) = unat (currentBatchId s) - 1"
      using co cl by (simp add: counters_ok_def)
    moreover have "unat (currentBatchId s) < 2 ^ 256"
      using unsigned_less[of "currentBatchId s", where 'a = nat] by simp
    ultimately have room: "unat (totalBatches s) + 1 < 2 ^ 256" by simp
    show ?thesis
      using assms(3,4) guard(3)[OF el] cl room
      by (simp add: openBatch_def checked_add_def emit_def)
  qed
  have submits: "\<exists>s'. submitUpdate e t b h1 h2 s = Inr s' \<and>
      lastSubmissionTime s' (msg_sender t) = block_timestamp t"
    if "deadline \<le> unat (block_timestamp t)" "b = currentBatchId s" "isOpen (batches s b)"
      "isInitialized e h1" "isInitialized e h2"
    using assms(3,4) guard(3)[OF that(1)] that(2-5)
    by (simp add: submitUpdate_def emit_def)
  show ?thesis using active panic opens submits by blast
qed

theorem submission_cooldown_witness:
  "openBatch (tx_at 1 159) (run demo_env (constructor 1) [(tx_at 1 100, OpenBatch)])
     = Inl CooldownActive \<and>
   submitUpdate demo_env (tx_at 1 159) 1 11 22
     (run demo_env (constructor 1) [(tx_at 1 100, OpenBatch)]) = Inl CooldownActive \<and>
   (\<exists>s'. submitUpdate demo_env (tx_at 1 160) 1 11 22
           (run demo_env (constructor 1) [(tx_at 1 100, OpenBatch)]) = Inr s' \<and>
         lastSubmissionTime s' (msg_sender (tx_at 1 160)) = block_timestamp (tx_at 1 160)) \<and>
   (\<exists>s'. openBatch (tx_at 1 60) (run demo_env (constructor 1) []) = Inr s' \<and>
         lastSubmissionTime s' (msg_sender (tx_at 1 60)) = block_timestamp (tx_at 1 60)) \<and>
   openBatch (tx_at 1 105) (run demo_env (constructor 1)
       [(tx_at 1 100, OpenBatch), (tx_at 1 101, SetCooldownSeconds max_uint256)])
     = Inl PanicOverflow"
proof -
  let ?opened = "run demo_env (constructor 1) [(tx_at 1 100, OpenBatch)]"
  let ?init = "run demo_env (constructor 1) []"
  let ?maxed = "run demo_env (constructor 1)
       [(tx_at 1 100, OpenBatch), (tx_at 1 101, SetCooldownSeconds max_uint256)]"
  have p1: "isProvider ?opened (msg_sender (tx_at 1 159))" and q1: "\<not> paused ?opened"
    and p2: "isProvider ?opened (msg_sender (tx_at 1 160))"
    and p0: "isProvider ?init (msg_sender (tx_at 1 60))" and q0: "\<not> paused ?init"
    and p3: "isProvider ?maxed (msg_sender (tx_at 1 105))" and q3: "\<not> paused ?maxed"
    by (simp_all add: demo_defs)
  have active: "unat (lastSubmissionTime ?opened (msg_sender (tx_at 1 159))) + unat (cooldownSeconds ?opened)
        < 2 ^ 256 \<and>
      unat (block_timestamp (tx_at 1 159))
        < unat (lastSubmissionTime ?opened (msg_sender (tx_at 1 159))) + unat (cooldownSeconds ?opened)"
    by (simp add: demo_defs)
  have elapsed: "unat (lastSubmissionTime ?opened (msg_sender (tx_at 1 160))) + unat (cooldownSeconds ?opened)
        \<le> unat (block_timestamp (tx_at 1 160))"
    and ready: "1 = currentBatchId ?opened \<and> isOpen (batches ?opened 1) \<and>
        isInitialized demo_env 11 \<and> isInitialized demo_env 22"
    by (simp_all add: demo_defs)
  have elapsed0: "unat (lastSubmissionTime ?init (msg_sender (tx_at 1 60))) + unat (cooldownSeconds ?init)
        \<le> unat (block_timestamp (tx_at 1 60))"
    and closed0: "\<not> isOpen (batches ?init (currentBatchId ?init))"
    by (simp_all add: demo_defs)
  have over: "2 ^ 256 \<le> unat (lastSubmissionTime ?maxed (msg_sender (tx_at 1 105)))
        + unat (cooldownSeconds ?maxed)"
    by (simp add: demo_defs)
  from submission_cooldown[OF p1 q1, where b = 1 and ?h1.0 = 11 and ?h2.0 = 22] active
  have a: "openBatch (tx_at 1 159) ?opened = Inl CooldownActive"
      "submitUpdate demo_env (tx_at 1 159) 1 11 22 ?opened = Inl CooldownActive"
    by blast+
  from submission_cooldown[OF p2 q1, where b = 1 and ?h1.0 = 11 and ?h2.0 = 22] elapsed ready
  have b: "\<exists>s'. submitUpdate demo_env (tx_at 1 160) 1 11 22 ?opened = Inr s' \<and>
      lastSubmissionTime s' (msg_sender (tx_at 1 160)) = block_timestamp (tx_at 1 160)"
    by blast
  from submission_cooldown[OF p0 q0, where b = 1 and ?h1.0 = 11 and ?h2.0 = 22] elapsed0 closed0
  have c: "\<exists>s'. openBatch (tx_at 1 60) ?init = Inr s' \<and>
      lastSubmissionTime s' (msg_sender (tx_at 1 60)) = block_timestamp (tx_at 1 60)"
    by blast
  from submission_cooldown[OF p3 q3, where b = 1 and ?h1.0 = 11 and ?h2.0 = 22] over
  have d: "openBatch (tx_at 1 105) ?maxed = Inl PanicOverflow"
    by blast
  show ?thesis using a b c d by blast
qed

text \<open>
  C8. The claim: with a positive cooldown, a \<open>submitUpdate\<close> of the same actor within the
  cooldown of their own \<open>openBatch\<close> always fails with \<open>CooldownActive\<close>. In the execution
  below the deployer opens a batch at time 100, the owner sets the cooldown to the largest
  \<^verbatim>\<open>uint256\<close>, and the deployer submits at time 105: the call reverts with the overflow
  panic.
\<close>

theorem open_then_submit_counterexample:
  "succeeds (openBatch (tx_at 1 100) (constructor 1)) \<and>
   0 < cooldownSeconds (run demo_env (constructor 1)
      [(tx_at 1 100, OpenBatch), (tx_at 1 101, SetCooldownSeconds max_uint256)]) \<and>
   submitUpdate demo_env (tx_at 1 105) 1 11 22 (run demo_env (constructor 1)
      [(tx_at 1 100, OpenBatch), (tx_at 1 101, SetCooldownSeconds max_uint256)]) = Inl PanicOverflow"
  by (simp add: demo_defs succeeds_def)

text \<open>
  C8, as the contract has it. A returned \<open>openBatch\<close> records the caller's submission time,
  the timer that \<open>submitUpdate\<close> checks. In the state after it, or in any later state \<open>s2\<close>
  in which that timer of the actor is unchanged, a \<open>submitUpdate\<close> of the same actor at a time
  below the opening time plus the cooldown never returns and leaves the state as it was; for
  a provider, while not paused, it reverts with \<open>CooldownActive\<close> when the sum fits in 256
  bits and with the overflow panic otherwise.
\<close>

theorem open_then_submit:
  assumes "openBatch t s = Inr s1"
    and "lastSubmissionTime s2 (msg_sender t) = lastSubmissionTime s1 (msg_sender t)"
    and "msg_sender t' = msg_sender t"
    and "unat (block_timestamp t') < unat (block_timestamp t) + unat (cooldownSeconds s2)"
  shows "lastSubmissionTime s1 (msg_sender t) = block_timestamp t \<and>
         isProvider s1 (msg_sender t) \<and> \<not> paused s1 \<and>
         cooldownSeconds s1 = cooldownSeconds s \<and>
         \<not> succeeds (submitUpdate e t' b h1 h2 s2) \<and>
         step e s2 (t', SubmitUpdate b h1 h2) = s2 \<and>
         (isProvider s2 (msg_sender t') \<and> \<not> paused s2 \<longrightarrow>
            submitUpdate e t' b h1 h2 s2 =
              Inl (if unat (block_timestamp t) + unat (cooldownSeconds s2) < 2 ^ 256
                   then CooldownActive else PanicOverflow))"
proof -
  note eff = openBatch_Inr[OF assms(1)]
  have rec: "lastSubmissionTime s1 (msg_sender t) = block_timestamp t" by (simp add: eff(6))
  have keep: "isProvider s1 (msg_sender t)" "\<not> paused s1" "cooldownSeconds s1 = cooldownSeconds s"
    using eff(1,2) by (simp_all add: eff(6))
  have last: "lastSubmissionTime s2 (msg_sender t') = block_timestamp t"
    using assms(2,3) rec by simp
  have res: "submitUpdate e t' b h1 h2 s2 =
      Inl (if \<not> isProvider s2 (msg_sender t') then NotProvider
           else if paused s2 then PausedState
           else if unat (block_timestamp t) + unat (cooldownSeconds s2) < 2 ^ 256
             then CooldownActive else PanicOverflow)"
    using assms(4) by (simp add: submitUpdate_def respectCooldown_cases last)
  then have "\<not> succeeds (submitUpdate e t' b h1 h2 s2)"
    and "step e s2 (t', SubmitUpdate b h1 h2) = s2"
    by (simp_all add: succeeds_def step_def commit_def)
  then show ?thesis using rec keep res by simp
qed

theorem open_then_submit_witness:
  "(\<exists>s1. openBatch (tx_at 1 100) (constructor 1) = Inr s1 \<and>
      lastSubmissionTime s1 1 = 100 \<and> cooldownSeconds s1 = 60 \<and>
      submitUpdate demo_env (tx_at 1 100) 1 11 22 s1 = Inl CooldownActive \<and>
      submitUpdate demo_env (tx_at 1 159) 1 11 22 s1 = Inl CooldownActive)"
proof -
  obtain s1 where op: "openBatch (tx_at 1 100) (constructor 1) = Inr s1"
    by (simp add: demo_defs)
  then have s1: "s1 = step demo_env (constructor 1) (tx_at 1 100, OpenBatch)"
    by (simp add: step_def commit_def)
  have base: "cooldownSeconds s1 = 60" "isProvider s1 1" "\<not> paused s1"
      "lastSubmissionTime s1 1 = 100"
    unfolding s1 by (simp_all add: demo_defs)
  have snd: "msg_sender (tx_at 1 100) = 1" "msg_sender (tx_at 1 159) = 1"
      "block_timestamp (tx_at 1 100) = 100" "block_timestamp (tx_at 1 159) = 159"
    by (simp_all add: tx_at_def)
  have same: "lastSubmissionTime s1 (msg_sender (tx_at 1 100))
      = lastSubmissionTime s1 (msg_sender (tx_at 1 100))"
    by simp
  have w0: "unat (block_timestamp (tx_at 1 100))
      < unat (block_timestamp (tx_at 1 100)) + unat (cooldownSeconds s1)"
    and w1: "unat (block_timestamp (tx_at 1 159))
      < unat (block_timestamp (tx_at 1 100)) + unat (cooldownSeconds s1)"
    by (simp_all add: snd base)
  have "submitUpdate demo_env (tx_at 1 100) 1 11 22 s1 = Inl CooldownActive"
    using open_then_submit[OF op same _ w0, where e = demo_env and b = 1
        and ?h1.0 = 11 and ?h2.0 = 22] base
    by (simp add: snd)
  moreover have "submitUpdate demo_env (tx_at 1 159) 1 11 22 s1 = Inl CooldownActive"
    using open_then_submit[OF op same _ w1, where e = demo_env and b = 1
        and ?h1.0 = 11 and ?h2.0 = 22] base
    by (simp add: snd)
  ultimately show ?thesis using op base(1,4) by blast
qed

end
